theory Spec2Isabelle
  imports Complex_Main "HOL-Library.Sublist"
begin

section \<open>Python strings\<close>

text \<open>
  A Python \<open>str\<close> is modelled as a \<open>string\<close>, one \<open>char\<close> per code point, for
  code points in ASCII. \<open>str.isspace\<close> and the regular expression class \<open>\s\<close> agree
  there: tab, line feed, vertical tab, form feed, carriage return, the four separators
  0x1C..0x1F and the blank. \<open>\d\<close> is one of \<open>0\<close>..\<open>9\<close>. A character outside ASCII
  counts as neither a space nor a digit, and \<open>upper\<close> changes the letters \<open>a\<close>..\<open>z\<close>
  only.
\<close>

definition isspace :: "char \<Rightarrow> bool" where
  "isspace c = (let n = (of_char c :: nat) in (9 \<le> n \<and> n \<le> 13) \<or> (28 \<le> n \<and> n \<le> 32))"

definition isdigit :: "char \<Rightarrow> bool" where
  "isdigit c = (let n = (of_char c :: nat) in 48 \<le> n \<and> n \<le> 57)"

definition digit_val :: "char \<Rightarrow> int" where
  "digit_val c = int (of_char c) - 48"

definition strip :: "string \<Rightarrow> string" where
  "strip s = rev (dropWhile isspace (rev (dropWhile isspace s)))"

definition upper_char :: "char \<Rightarrow> char" where
  "upper_char c = (let n = (of_char c :: nat) in if 97 \<le> n \<and> n \<le> 122 then char_of (n - 32) else c)"

definition upper :: "string \<Rightarrow> string" where
  "upper s = map upper_char s"


section \<open>\<open>datetime.strptime\<close> with the format \<open>%Y-%m-%d %H:%M\<close>\<close>

text \<open>
  The standard library compiles the format into the regular expression
  \<^verbatim>\<open>(?P<Y>\d\d\d\d)-(?P<m>1[0-2]|0[1-9]|[1-9])-(?P<d>3[0-1]|[1-2]\d|0[1-9]|[1-9]| [1-9])\s+(?P<H>2[0-3]|[0-1]\d|\d):(?P<M>[0-5]\d|\d)\<close>
  and matches it at the start of the data with a backtracking matcher. Each piece of the
  expression is modelled as a function from the remaining input to the list of its
  matches, in the order in which the matcher tries them; the first element of the list
  for the whole expression is the match the library finds.
\<close>

datatype reason =
    does_not_match_format string
  | unconverted_data_remains string
  | out_of_range

datatype exn =
    ValueError reason
  | OverflowError
  | AttributeError
  | KeyError

definition cls :: "int \<Rightarrow> int \<Rightarrow> string \<Rightarrow> (int \<times> string) list" where
  \<comment> \<open>the character class \<open>[lo-hi]\<close> of digits\<close>
  "cls lo hi s =
     (case s of
        [] \<Rightarrow> []
      | c # r \<Rightarrow> if isdigit c \<and> lo \<le> digit_val c \<and> digit_val c \<le> hi then [(digit_val c, r)] else [])"

definition two :: "(string \<Rightarrow> (int \<times> string) list) \<Rightarrow> (string \<Rightarrow> (int \<times> string) list)
    \<Rightarrow> string \<Rightarrow> (int \<times> string) list" where
  \<comment> \<open>two digit classes in a row, read as a decimal number\<close>
  "two p q s = List.bind (p s) (\<lambda>(a, r). map (\<lambda>(b, r'). (10 * a + b, r')) (q r))"

definition lit :: "char \<Rightarrow> string \<Rightarrow> string list" where
  "lit c s = (case s of [] \<Rightarrow> [] | x # r \<Rightarrow> if x = c then [r] else [])"

fun spaces :: "string \<Rightarrow> string list" where
  \<comment> \<open>\<open>\s+\<close>, greedy: the longest run first\<close>
  "spaces [] = []"
| "spaces (c # r) = (if isspace c then spaces r @ [r] else [])"

definition rx_Y :: "string \<Rightarrow> (int \<times> string) list" where
  "rx_Y s = List.bind (two (cls 0 9) (cls 0 9) s)
              (\<lambda>(a, r). map (\<lambda>(b, r'). (100 * a + b, r')) (two (cls 0 9) (cls 0 9) r))"

definition rx_m :: "string \<Rightarrow> (int \<times> string) list" where
  "rx_m s = two (cls 1 1) (cls 0 2) s @ two (cls 0 0) (cls 1 9) s @ cls 1 9 s"

definition rx_d :: "string \<Rightarrow> (int \<times> string) list" where
  "rx_d s = two (cls 3 3) (cls 0 1) s @ two (cls 1 2) (cls 0 9) s @ two (cls 0 0) (cls 1 9) s
            @ cls 1 9 s @ List.bind (lit CHR '' '' s) (cls 1 9)"

definition rx_H :: "string \<Rightarrow> (int \<times> string) list" where
  "rx_H s = two (cls 2 2) (cls 0 3) s @ two (cls 0 1) (cls 0 9) s @ cls 0 9 s"

definition rx_M :: "string \<Rightarrow> (int \<times> string) list" where
  "rx_M s = two (cls 0 5) (cls 0 9) s @ cls 0 9 s"

definition format_regex :: "string \<Rightarrow> ((int \<times> int \<times> int \<times> int \<times> int) \<times> string) list" where
  "format_regex s =
     List.bind (rx_Y s) (\<lambda>(Y, r1).
     List.bind (lit CHR ''-'' r1) (\<lambda>r2.
     List.bind (rx_m r2) (\<lambda>(m, r3).
     List.bind (lit CHR ''-'' r3) (\<lambda>r4.
     List.bind (rx_d r4) (\<lambda>(d, r5).
     List.bind (spaces r5) (\<lambda>r6.
     List.bind (rx_H r6) (\<lambda>(H, r7).
     List.bind (lit CHR '':'' r7) (\<lambda>r8.
     List.bind (rx_M r8) (\<lambda>(M, r9). [((Y, m, d, H, M), r9)])))))))))"

text \<open>
  The calendar of the standard library's \<open>datetime\<close> module. A \<open>datetime\<close> whose
  seconds and microseconds are zero is represented by the number of minutes from
  0001-01-01 00:00 of the proleptic Gregorian calendar, counted from the day ordinal that
  \<open>toordinal\<close> returns: comparing two datetimes compares these numbers, their difference
  is the difference in minutes, and adding \<open>timedelta(days=1)\<close> adds 1440, or raises
  \<open>OverflowError\<close> beyond 9999-12-31.
\<close>

type_synonym datetime = int

definition is_leap :: "int \<Rightarrow> bool" where
  "is_leap year = (year mod 4 = 0 \<and> (year mod 100 \<noteq> 0 \<or> year mod 400 = 0))"

definition days_before_year :: "int \<Rightarrow> int" where
  "days_before_year year = (let y = year - 1 in y * 365 + y div 4 - y div 100 + y div 400)"

definition days_in_month :: "int \<Rightarrow> int \<Rightarrow> int" where
  "days_in_month year month =
     (if month = 2 \<and> is_leap year then 29
      else [31, 28, 31, 30, 31, 30, 31, 31, 30, 31, 30, 31] ! nat (month - 1))"

definition days_before_month :: "int \<Rightarrow> int \<Rightarrow> int" where
  "days_before_month year month =
     [0, 31, 59, 90, 120, 151, 181, 212, 243, 273, 304, 334] ! nat (month - 1)
       + (if month > 2 \<and> is_leap year then 1 else 0)"

definition ymd2ord :: "int \<Rightarrow> int \<Rightarrow> int \<Rightarrow> int" where
  "ymd2ord year month day = days_before_year year + days_before_month year month + day"

definition MAXORDINAL :: int where
  "MAXORDINAL = 3652059"

definition mk_datetime :: "int \<Rightarrow> int \<Rightarrow> int \<Rightarrow> int \<Rightarrow> int \<Rightarrow> exn + datetime" where
  \<comment> \<open>the constructor, with its range checks\<close>
  "mk_datetime year month day hour minute =
     (if 1 \<le> year \<and> year \<le> 9999 \<and> 1 \<le> month \<and> month \<le> 12
         \<and> 1 \<le> day \<and> day \<le> days_in_month year month
         \<and> 0 \<le> hour \<and> hour \<le> 23 \<and> 0 \<le> minute \<and> minute \<le> 59
      then Inr (ymd2ord year month day * 1440 + hour * 60 + minute)
      else Inl (ValueError out_of_range))"

definition toordinal :: "datetime \<Rightarrow> int" where
  "toordinal t = t div 1440"

definition add_one_day :: "datetime \<Rightarrow> exn + datetime" where
  \<comment> \<open>\<open>t + timedelta(days=1)\<close>\<close>
  "add_one_day t = (if toordinal t + 1 \<le> MAXORDINAL then Inr (t + 1440) else Inl OverflowError)"

definition strptime :: "string \<Rightarrow> exn + datetime" where
  "strptime data_string =
     (case format_regex data_string of
        [] \<Rightarrow> Inl (ValueError (does_not_match_format data_string))
      | ((Y, m, d, H, M), rest) # _ \<Rightarrow>
          if rest \<noteq> [] then Inl (ValueError (unconverted_data_remains rest))
          else mk_datetime Y m d H M)"


section \<open>The flight logger\<close>

definition parse_datetime :: "string \<Rightarrow> string \<Rightarrow> exn + datetime" where
  "parse_datetime date_str time_str = strptime (strip date_str @ '' '' @ strip time_str)"

text \<open>
  \<open>round(x, 2)\<close> on a float rounds to the nearest multiple of 0.01, a tie going to the
  even neighbour. Hours are modelled as exact rationals: the durations and totals of the
  logger are quotients of whole minutes by 60 and sums of two-decimal values, which never
  lie on a tie, so that the float computation and the exact one pick the same two-decimal
  value.
\<close>

definition round_half_even :: "rat \<Rightarrow> int" where
  "round_half_even x =
     (let f = \<lfloor>x\<rfloor>; d = x - of_int f
      in if d < 1 / 2 then f else if 1 / 2 < d then f + 1 else if even f then f else f + 1)"

definition round2 :: "rat \<Rightarrow> rat" where
  "round2 x = of_int (round_half_even (x * 100)) / 100"

definition calc_duration_hours :: "string \<Rightarrow> string \<Rightarrow> string \<Rightarrow> exn + rat" where
  "calc_duration_hours date_str takeoff landing =
     (case parse_datetime date_str takeoff of
        Inl e \<Rightarrow> Inl e
      | Inr t1 \<Rightarrow>
     (case parse_datetime date_str landing of
        Inl e \<Rightarrow> Inl e
      | Inr t2 \<Rightarrow>
     (case (if t2 < t1 then add_one_day t2 else Inr t2) of
        Inl e \<Rightarrow> Inl e
      | Inr t2' \<Rightarrow>
          let seconds = (t2' - t1) * 60;
              hours = of_int seconds / 3600
          in Inr (round2 hours))))"

text \<open>
  One row of the frame that \<open>pd.read_csv\<close> returns for \<open>flights.csv\<close>. A cell of
  the date and time columns is a string when the reader returns text, whatever the text
  is; \<open>Other\<close> when the reader returns anything else (a blank or a cell lost from a short
  row, read as NaN; a number), on which \<open>.strip()\<close> raises \<open>AttributeError\<close>; and
  \<open>Absent\<close> when the header of the file lacks the column, so that \<open>row[...]\<close> raises
  \<open>KeyError\<close>. The duration, the landings and the two totals are numbers.
\<close>

datatype cell = Str string | Other | Absent

record row =
  Date :: cell
  Tail_Number :: cell
  Takeoff_Time :: cell
  Landing_Time :: cell
  Flight_Duration :: rat
  Landings_This_Flight :: int
  Total_Hours_After_Flight :: rat
  Total_Landings_After_Flight :: int

text \<open>
  The directory \<open>aircraft_logs\<close>: for each folder name the state of its \<open>flights.csv\<close>.
  \<open>Missing\<close>: no such file. \<open>Unreadable\<close>: the file is there and \<open>pd.read_csv\<close>
  raises on it. \<open>Frame rows\<close>: the file holds the header and these rows, in this order;
  \<open>to_csv\<close> followed by \<open>read_csv\<close> is taken to give back the rows written.
  A data frame is the list of its rows: \<open>df.empty\<close> is \<open>df = []\<close>, \<open>iloc[-1]\<close> is
  \<open>last df\<close>, and \<open>df.append(new_row, ignore_index=True)\<close> is \<open>df @ [new_row]\<close>.
  The folder is named by the tail number, trimmed and in upper case; that
  \<open>aircraft_folder\<close> also creates the folder on disk is left out, since no function of
  the logger reads it back.

  A frame covers every file that the reader parses into rows with numbers in the numeric
  columns: the rows written by the logger, and damaged files as well, whose date and
  time cells hold any text, are blank, or are missing with their column. A file whose
  total columns are missing, or hold no number in the last row, is outside the three
  states: \<open>read_flights_df\<close> returns its frame as it does any other, and the reading of
  the totals in \<open>add_flight_record\<close> then raises.
\<close>

datatype flights_csv = Missing | Unreadable | Frame "row list"

type_synonym logs = "string \<Rightarrow> flights_csv"

definition aircraft_folder :: "string \<Rightarrow> string" where
  "aircraft_folder tail_number = upper (strip tail_number)"

definition read_flights_df :: "logs \<Rightarrow> string \<Rightarrow> row list" where
  "read_flights_df fs tail_number =
     (case fs (aircraft_folder tail_number) of
        Frame df \<Rightarrow> df
      | Unreadable \<Rightarrow> []
      | Missing \<Rightarrow> [])"

definition write_flights_df :: "logs \<Rightarrow> string \<Rightarrow> row list \<Rightarrow> logs" where
  "write_flights_df fs tail_number df = fs (aircraft_folder tail_number := Frame df)"

definition parse_cells :: "cell \<Rightarrow> cell \<Rightarrow> exn + datetime" where
  \<comment> \<open>\<open>parse_datetime\<close> applied to two cells of a row: both are looked up, then trimmed\<close>
  "parse_cells d t =
     (if d = Absent \<or> t = Absent then Inl KeyError
      else
        (case d of
           Str date_str \<Rightarrow>
             (case t of
                Str time_str \<Rightarrow> parse_datetime date_str time_str
              | _ \<Rightarrow> Inl AttributeError)
         | _ \<Rightarrow> Inl AttributeError))"

definition existing_interval :: "row \<Rightarrow> exn + datetime \<times> datetime" where
  \<comment> \<open>the body of the \<open>try\<close> in the loop of \<open>detect_overlap\<close>\<close>
  "existing_interval r =
     (case parse_cells (Date r) (Takeoff_Time r) of
        Inl e \<Rightarrow> Inl e
      | Inr existing_start \<Rightarrow>
     (case parse_cells (Date r) (Landing_Time r) of
        Inl e \<Rightarrow> Inl e
      | Inr existing_end \<Rightarrow>
     (case (if existing_end < existing_start then add_one_day existing_end else Inr existing_end) of
        Inl e \<Rightarrow> Inl e
      | Inr existing_end' \<Rightarrow> Inr (existing_start, existing_end'))))"

fun overlap_loop :: "datetime \<Rightarrow> datetime \<Rightarrow> row list \<Rightarrow> bool" where
  \<comment> \<open>the \<open>for\<close> loop of \<open>detect_overlap\<close> over the rows\<close>
  "overlap_loop new_start new_end [] = False"
| "overlap_loop new_start new_end (r # rows) =
     (case existing_interval r of
        Inl e \<Rightarrow> overlap_loop new_start new_end rows
      | Inr (existing_start, existing_end) \<Rightarrow>
          if new_start < existing_end \<and> new_end > existing_start then True
          else overlap_loop new_start new_end rows)"

definition detect_overlap :: "logs \<Rightarrow> string \<Rightarrow> string \<Rightarrow> string \<Rightarrow> string \<Rightarrow> exn + bool" where
  "detect_overlap fs tail_number date_str takeoff landing =
     (let df = read_flights_df fs tail_number in
      if df = [] then Inr False
      else
     (case parse_datetime date_str takeoff of
        Inl e \<Rightarrow> Inl e
      | Inr new_start \<Rightarrow>
     (case parse_datetime date_str landing of
        Inl e \<Rightarrow> Inl e
      | Inr new_end \<Rightarrow>
     (case (if new_end < new_start then add_one_day new_end else Inr new_end) of
        Inl e \<Rightarrow> Inl e
      | Inr new_end' \<Rightarrow> Inr (overlap_loop new_start new_end' df)))))"

text \<open>
  The message returned by \<open>add_flight_record\<close> is a fixed text, or the text
  \<open>Date/time parse error:\<close> followed by the text of the exception caught.
\<close>

datatype message = Text string | Date_time_parse_error exn

datatype outcome = Returned bool message | Raised exn

definition add_flight_record ::
  "logs \<Rightarrow> string \<Rightarrow> string \<Rightarrow> string \<Rightarrow> string \<Rightarrow> int \<Rightarrow> logs \<times> outcome" where
  "add_flight_record fs date_str tail0 takeoff landing landings_this =
     (let tail = upper (strip tail0) in
      if tail = [] then (fs, Returned False (Text ''Tail number required.''))
      else
     (case calc_duration_hours date_str takeoff landing of
        Inl e \<Rightarrow> (fs, Returned False (Date_time_parse_error e))
      | Inr duration \<Rightarrow>
     (case detect_overlap fs tail date_str takeoff landing of
        Inl e \<Rightarrow> (fs, Raised e)
      | Inr True \<Rightarrow> (fs, Returned False (Text ''Overlap detected with existing flight.''))
      | Inr False \<Rightarrow>
          let df = read_flights_df fs tail;
              prev_hours = (if df = [] then 0 else Total_Hours_After_Flight (last df));
              prev_landings = (if df = [] then 0 else Total_Landings_After_Flight (last df));
              new_total_hours = round2 (prev_hours + duration);
              new_total_landings = prev_landings + landings_this;
              new_row = \<lparr>Date = Str date_str, Tail_Number = Str tail,
                         Takeoff_Time = Str takeoff, Landing_Time = Str landing,
                         Flight_Duration = duration, Landings_This_Flight = landings_this,
                         Total_Hours_After_Flight = new_total_hours,
                         Total_Landings_After_Flight = new_total_landings\<rparr>
          in (write_flights_df fs tail (df @ [new_row]),
              Returned True (Text ''Flight added successfully.'')))))"


section \<open>Notions used to state the properties\<close>

text \<open>
  The interval of a request: both instants parsed from the date and the two clock times,
  the end moved one day on when it is earlier than the start. \<open>calc_duration_hours\<close>
  and \<open>detect_overlap\<close> each compute it in these steps before they go on.
\<close>

definition request_interval :: "string \<Rightarrow> string \<Rightarrow> string \<Rightarrow> exn + datetime \<times> datetime" where
  "request_interval date_str takeoff landing =
     (case parse_datetime date_str takeoff of
        Inl e \<Rightarrow> Inl e
      | Inr t1 \<Rightarrow>
     (case parse_datetime date_str landing of
        Inl e \<Rightarrow> Inl e
      | Inr t2 \<Rightarrow>
     (case (if t2 < t1 then add_one_day t2 else Inr t2) of
        Inl e \<Rightarrow> Inl e
      | Inr t2' \<Rightarrow> Inr (t1, t2'))))"

text \<open>
  The logs that calls of \<open>add_flight_record\<close> produce, starting with no file at all.
\<close>

inductive produced :: "logs \<Rightarrow> bool" where
  fresh: "produced (\<lambda>folder. Missing)"
| call: "produced fs \<Longrightarrow>
         produced (fst (add_flight_record fs date_str tail takeoff landing landings_this))"



definition digit_char :: "int \<Rightarrow> char" where
  "digit_char k = char_of (48 + nat k)"



text \<open>The row that a call appends when it succeeds, for a request of duration \<open>h\<close>.\<close>

definition new_row :: "logs \<Rightarrow> string \<Rightarrow> string \<Rightarrow> string \<Rightarrow> string \<Rightarrow> int \<Rightarrow> rat \<Rightarrow> row" where
  "new_row fs d tail a b n h =
     (let df = read_flights_df fs tail in
      \<lparr>Date = Str d, Tail_Number = Str (upper (strip tail)), Takeoff_Time = Str a,
       Landing_Time = Str b, Flight_Duration = h, Landings_This_Flight = n,
       Total_Hours_After_Flight =
         round2 ((if df = [] then 0 else Total_Hours_After_Flight (last df)) + h),
       Total_Landings_After_Flight =
         (if df = [] then 0 else Total_Landings_After_Flight (last df)) + n\<rparr>)"

text \<open>
  An example: the log of N123AB holds one flight, on 2024-01-01 from 10:00 to 12:00, and
  no other aircraft has a file.
\<close>

definition flight_10_12 :: row where
  "flight_10_12 =
     \<lparr>Date = Str ''2024-01-01'', Tail_Number = Str ''N123AB'', Takeoff_Time = Str ''10:00'',
      Landing_Time = Str ''12:00'', Flight_Duration = 2, Landings_This_Flight = 1,
      Total_Hours_After_Flight = 2, Total_Landings_After_Flight = 1\<rparr>"

definition example_logs :: logs where
  "example_logs = (\<lambda>folder. Missing) (''N123AB'' := Frame [flight_10_12])"

text \<open>
  Running totals along a log: each row's totals are those of the row before it (\<open>ph\<close>
  and \<open>pl\<close> for the first row) with the row's own duration and landings added.
\<close>

fun running_totals :: "rat \<Rightarrow> int \<Rightarrow> row list \<Rightarrow> bool" where
  "running_totals ph pl [] = True"
| "running_totals ph pl (r # rs) =
     (Total_Hours_After_Flight r = round2 (ph + Flight_Duration r)
      \<and> Total_Landings_After_Flight r = pl + Landings_This_Flight r
      \<and> running_totals (Total_Hours_After_Flight r) (Total_Landings_After_Flight r) rs)"

text \<open>The example after one more flight of N123AB, from 12:00 to 12:20 with two landings.\<close>

definition logs_after_two :: logs where
  "logs_after_two = fst (add_flight_record example_logs ''2024-01-01'' '' n123ab'' ''12:00'' ''12:20'' 2)"

text \<open>
  Two more examples for N123AB: a log holding one overnight flight, from 23:00 on
  2024-01-01 to 01:00, and a log holding one flight on 2024-01-02 from 00:30 to 02:00.
\<close>

definition flight_overnight :: row where
  "flight_overnight =
     \<lparr>Date = Str ''2024-01-01'', Tail_Number = Str ''N123AB'', Takeoff_Time = Str ''23:00'',
      Landing_Time = Str ''01:00'', Flight_Duration = 2, Landings_This_Flight = 1,
      Total_Hours_After_Flight = 2, Total_Landings_After_Flight = 1\<rparr>"

definition overnight_logs :: logs where
  "overnight_logs = (\<lambda>folder. Missing) (''N123AB'' := Frame [flight_overnight])"

definition flight_next_day :: row where
  "flight_next_day =
     \<lparr>Date = Str ''2024-01-02'', Tail_Number = Str ''N123AB'', Takeoff_Time = Str ''00:30'',
      Landing_Time = Str ''02:00'', Flight_Duration = 3 / 2, Landings_This_Flight = 1,
      Total_Hours_After_Flight = 3 / 2, Total_Landings_After_Flight = 1\<rparr>"

definition next_day_logs :: logs where
  "next_day_logs = (\<lambda>folder. Missing) (''N123AB'' := Frame [flight_next_day])"


section \<open>Trimming and upper case\<close>

lemma isspace_upper_char [simp]: "isspace (upper_char c) = isspace c"
  unfolding isspace_def upper_char_def Let_def
  by (auto simp: of_char_of [where ?'a = nat] )

lemma strip_fixed:
  assumes "s \<noteq> []" "\<not> isspace (hd s)" "\<not> isspace (last s)"
  shows "strip s = s"
proof -
  have a: "dropWhile isspace s = s" using assms by (cases s) auto
  have "rev s \<noteq> []" "\<not> isspace (hd (rev s))" using assms by (auto simp: hd_rev)
  then have b: "dropWhile isspace (rev s) = rev s" by (cases "rev s") auto
  show ?thesis by (simp add: strip_def a b)
qed

lemma strip_ends:
  "strip s = [] \<or> (\<not> isspace (hd (strip s)) \<and> \<not> isspace (last (strip s)))"
proof (cases "strip s = []")
  case True then show ?thesis by simp
next
  case False
  define a where "a = dropWhile isspace s"
  define b where "b = dropWhile isspace (rev a)"
  have s: "strip s = rev b" by (simp add: strip_def a_def b_def)
  have bne: "b \<noteq> []" using False s by simp
  have hb: "\<not> isspace (hd b)" using bne unfolding b_def by (metis hd_dropWhile)
  obtain p where p: "rev a = p @ b" unfolding b_def
    by (metis takeWhile_dropWhile_id)
  then have a: "a = rev b @ rev p" by (metis rev_append rev_rev_ident)
  have ane: "a \<noteq> []" using a bne by simp
  have ha: "\<not> isspace (hd a)" using ane unfolding a_def by (metis hd_dropWhile)
  have "hd a = hd (rev b)" using a bne by simp
  with ha hb bne s show ?thesis by (simp add: last_rev)
qed

lemma strip_idem [simp]: "strip (strip s) = strip s"
proof (cases "strip s = []")
  case True
  have "strip [] = []" by (simp add: strip_def)
  with True show ?thesis by metis
next
  case False
  then show ?thesis using strip_ends [of s] strip_fixed [of "strip s"] by simp
qed

lemma strip_upper: "strip (upper s) = upper (strip s)"
  by (simp add: strip_def upper_def dropWhile_map rev_map comp_def)

lemma upper_char_idem: "upper_char (upper_char c) = upper_char c"
  unfolding upper_char_def Let_def by (auto simp: of_char_of [where ?'a = nat])

lemma upper_idem [simp]: "upper (upper s) = upper s"
  by (simp add: upper_def upper_char_idem)

lemma aircraft_folder_idem [simp]: "aircraft_folder (upper (strip t)) = upper (strip t)"
  by (simp add: aircraft_folder_def strip_upper)


section \<open>The steps of \<open>add_flight_record\<close>\<close>

lemma upper_Nil_iff [simp]: "upper s = [] \<longleftrightarrow> s = []"
  by (simp add: upper_def)

lemma read_flights_df_normalised [simp]:
  "read_flights_df fs (upper (strip t)) = read_flights_df fs t"
  by (simp add: read_flights_df_def aircraft_folder_def strip_upper)

lemma calc_duration_hours_interval:
  "calc_duration_hours d a b =
     (case request_interval d a b of Inl e \<Rightarrow> Inl e
      | Inr (s, e) \<Rightarrow> Inr (round2 (of_int ((e - s) * 60) / 3600)))"
  by (simp add: calc_duration_hours_def request_interval_def split: sum.splits)

lemma detect_overlap_interval:
  "detect_overlap fs t d a b =
     (if read_flights_df fs t = [] then Inr False
      else case request_interval d a b of Inl e \<Rightarrow> Inl e
           | Inr (s, e) \<Rightarrow> Inr (overlap_loop s e (read_flights_df fs t)))"
  by (simp add: detect_overlap_def request_interval_def Let_def split: sum.splits)

lemma overlap_loop_iff:
  "overlap_loop ns ne rows \<longleftrightarrow>
     (\<exists>r \<in> set rows. \<exists>es ee. existing_interval r = Inr (es, ee) \<and> ns < ee \<and> es < ne)"
  by (induction rows) (auto split: sum.splits)

lemma overlap_loop_Nil_read: "rows = [] \<Longrightarrow> overlap_loop ns ne rows = False"
  by simp

lemma detect_overlap_parsed:
  "request_interval d a b = Inr (ns, ne) \<Longrightarrow>
   detect_overlap fs t d a b = Inr (overlap_loop ns ne (read_flights_df fs t))"
  by (simp add: detect_overlap_interval)

lemma calc_ok_interval:
  "calc_duration_hours d a b = Inr h \<Longrightarrow> \<exists>ns ne. request_interval d a b = Inr (ns, ne)"
  by (auto simp: calc_duration_hours_interval split: sum.splits)

lemma add_flight_record_empty_tail:
  "strip tail = [] \<Longrightarrow>
   add_flight_record fs d tail a b n = (fs, Returned False (Text ''Tail number required.''))"
  by (simp add: add_flight_record_def)

lemma add_flight_record_parse_error:
  "strip tail \<noteq> [] \<Longrightarrow> calc_duration_hours d a b = Inl e \<Longrightarrow>
   add_flight_record fs d tail a b n = (fs, Returned False (Date_time_parse_error e))"
  by (simp add: add_flight_record_def)

lemma add_flight_record_overlap:
  "strip tail \<noteq> [] \<Longrightarrow> calc_duration_hours d a b = Inr h \<Longrightarrow>
   detect_overlap fs (upper (strip tail)) d a b = Inr True \<Longrightarrow>
   add_flight_record fs d tail a b n =
     (fs, Returned False (Text ''Overlap detected with existing flight.''))"
  by (simp add: add_flight_record_def)

lemma add_flight_record_added:
  "strip tail \<noteq> [] \<Longrightarrow> calc_duration_hours d a b = Inr h \<Longrightarrow>
   detect_overlap fs (upper (strip tail)) d a b = Inr False \<Longrightarrow>
   add_flight_record fs d tail a b n =
     (write_flights_df fs (upper (strip tail)) (read_flights_df fs tail @ [new_row fs d tail a b n h]),
      Returned True (Text ''Flight added successfully.''))"
  by (simp add: add_flight_record_def new_row_def Let_def)

lemma add_flight_record_total:
  "\<exists>ok m. snd (add_flight_record fs d tail a b n) = Returned ok m"
proof (cases "strip tail = []")
  case True
  then show ?thesis by (auto simp: add_flight_record_empty_tail)
next
  case ne: False
  show ?thesis
  proof (cases "calc_duration_hours d a b")
    case (Inl e)
    with ne show ?thesis by (auto simp: add_flight_record_parse_error)
  next
    case (Inr h)
    then obtain ns ne' where "request_interval d a b = Inr (ns, ne')"
      using calc_ok_interval by blast
    then obtain ov where ov: "detect_overlap fs (upper (strip tail)) d a b = Inr ov"
      by (simp add: detect_overlap_parsed)
    show ?thesis
    proof (cases ov)
      case True
      with ne Inr ov show ?thesis by (auto simp: add_flight_record_overlap)
    next
      case False
      with ne Inr ov show ?thesis by (auto simp: add_flight_record_added)
    qed
  qed
qed

lemma add_flight_record_rejected_logs:
  assumes "snd (add_flight_record fs d tail a b n) = Returned False m"
  shows "fst (add_flight_record fs d tail a b n) = fs"
  using assms
  by (auto simp: add_flight_record_def Let_def split: sum.splits bool.splits if_splits)

lemma calc_of_interval:
  "request_interval d a b = Inr (ns, ne) \<Longrightarrow>
   calc_duration_hours d a b = Inr (round2 (of_int ((ne - ns) * 60) / 3600))"
  by (simp add: calc_duration_hours_interval)

lemma add_flight_record_accepts:
  assumes t: "strip tail \<noteq> []"
    and i: "request_interval d a b = Inr (ns, ne)"
    and f: "\<not> overlap_loop ns ne (read_flights_df fs tail)"
  shows "add_flight_record fs d tail a b n =
     (write_flights_df fs (upper (strip tail))
        (read_flights_df fs tail
           @ [new_row fs d tail a b n (round2 (of_int ((ne - ns) * 60) / 3600))]),
      Returned True (Text ''Flight added successfully.''))"
proof -
  have "detect_overlap fs (upper (strip tail)) d a b = Inr False"
    using i f by (simp add: detect_overlap_parsed)
  with t calc_of_interval [OF i] show ?thesis
    by (rule_tac add_flight_record_added) auto
qed


section \<open>Two-decimal values and running totals\<close>

lemma round_half_even_of_int [simp]: "round_half_even (of_int k) = k"
  by (simp add: round_half_even_def)

lemma round2_hundredths: "round2 x * 100 \<in> \<int>"
  by (simp add: round2_def)

lemma round2_fixed: "x * 100 \<in> \<int> \<Longrightarrow> round2 x = x"
  by (auto simp: round2_def elim!: Ints_cases)

lemma hundredths_add: "x * 100 \<in> \<int> \<Longrightarrow> y * 100 \<in> \<int> \<Longrightarrow> (x + y) * 100 \<in> \<int>"
  by (simp add: distrib_right)

lemma calc_duration_hours_hundredths:
  "calc_duration_hours d a b = Inr h \<Longrightarrow> h * 100 \<in> \<int>"
  by (auto simp: calc_duration_hours_interval round2_hundredths split: sum.splits)

lemma running_totals_snoc:
  "running_totals ph pl (L @ [r]) \<longleftrightarrow>
     running_totals ph pl L
     \<and> Total_Hours_After_Flight r
         = round2 ((if L = [] then ph else Total_Hours_After_Flight (last L)) + Flight_Duration r)
     \<and> Total_Landings_After_Flight r
         = (if L = [] then pl else Total_Landings_After_Flight (last L)) + Landings_This_Flight r"
  by (induction L arbitrary: ph pl) auto

lemma running_totals_nth:
  "running_totals ph pl L \<Longrightarrow> i < length L \<Longrightarrow>
     Total_Hours_After_Flight (L ! i)
       = round2 ((if i = 0 then ph else Total_Hours_After_Flight (L ! (i - 1))) + Flight_Duration (L ! i))
     \<and> Total_Landings_After_Flight (L ! i)
       = (if i = 0 then pl else Total_Landings_After_Flight (L ! (i - 1))) + Landings_This_Flight (L ! i)"
proof (induction L arbitrary: ph pl i)
  case Nil
  then show ?case by simp
next
  case (Cons r rs)
  show ?case
  proof (cases i)
    case 0
    with Cons.prems show ?thesis by simp
  next
    case (Suc j)
    with Cons.prems have j: "j < length rs" by simp
    from Cons.prems(1) have rt: "running_totals (Total_Hours_After_Flight r) (Total_Landings_After_Flight r) rs"
      unfolding running_totals.simps by blast
    from Cons.IH [OF rt j] Suc show ?thesis by (cases j) auto
  qed
qed

lemma running_totals_sum:
  "running_totals ph pl L \<Longrightarrow> ph * 100 \<in> \<int> \<Longrightarrow> \<forall>r \<in> set L. Flight_Duration r * 100 \<in> \<int> \<Longrightarrow>
   L \<noteq> [] \<Longrightarrow>
     Total_Hours_After_Flight (last L) = ph + sum_list (map Flight_Duration L)
     \<and> Total_Landings_After_Flight (last L) = pl + sum_list (map Landings_This_Flight L)"
proof (induction L arbitrary: ph pl)
  case Nil
  then show ?case by simp
next
  case (Cons r rs)
  have h: "(ph + Flight_Duration r) * 100 \<in> \<int>"
    using Cons.prems by (simp add: hundredths_add)
  then have t: "Total_Hours_After_Flight r = ph + Flight_Duration r"
    using Cons.prems by (simp add: round2_fixed)
  show ?case
  proof (cases "rs = []")
    case True
    with Cons.prems t show ?thesis by simp
  next
    case False
    have "running_totals (Total_Hours_After_Flight r) (Total_Landings_After_Flight r) rs"
      using Cons.prems(1) unfolding running_totals.simps by blast
    moreover have "Total_Hours_After_Flight r * 100 \<in> \<int>" using t h by simp
    moreover have "\<forall>x \<in> set rs. Flight_Duration x * 100 \<in> \<int>" using Cons.prems by simp
    ultimately have "Total_Hours_After_Flight (last rs)
          = Total_Hours_After_Flight r + sum_list (map Flight_Duration rs)
        \<and> Total_Landings_After_Flight (last rs)
          = Total_Landings_After_Flight r + sum_list (map Landings_This_Flight rs)"
      using Cons.IH False by blast
    with Cons.prems t False show ?thesis by simp
  qed
qed

lemma sum_hundredths:
  "\<forall>r \<in> set L. Flight_Duration r * 100 \<in> \<int> \<Longrightarrow> sum_list (map Flight_Duration L) * 100 \<in> \<int>"
  by (induction L) (auto simp: hundredths_add)

lemma add_flight_record_logs:
  "fst (add_flight_record fs d tail a b n) = fs
   \<or> (\<exists>h. calc_duration_hours d a b = Inr h \<and> strip tail \<noteq> []
         \<and> add_flight_record fs d tail a b n
            = (write_flights_df fs (upper (strip tail))
                 (read_flights_df fs tail @ [new_row fs d tail a b n h]),
               Returned True (Text ''Flight added successfully.'')))"
  by (auto simp: add_flight_record_def new_row_def Let_def split: sum.splits bool.splits)

lemma read_write_other:
  "aircraft_folder t \<noteq> aircraft_folder u \<Longrightarrow>
   read_flights_df (write_flights_df fs u df) t = read_flights_df fs t"
  by (simp add: read_flights_df_def write_flights_df_def)

lemma read_same_folder:
  "aircraft_folder t = aircraft_folder u \<Longrightarrow> read_flights_df fs t = read_flights_df fs u"
  by (simp add: read_flights_df_def)

lemma read_write_folder:
  "aircraft_folder t = aircraft_folder u \<Longrightarrow> read_flights_df (write_flights_df fs u df) t = df"
  by (simp add: read_flights_df_def write_flights_df_def)

lemma new_row_totals:
  "Flight_Duration (new_row fs d tail a b n h) = h"
  "Landings_This_Flight (new_row fs d tail a b n h) = n"
  "Total_Hours_After_Flight (new_row fs d tail a b n h)
     = round2 ((if read_flights_df fs tail = [] then 0
                else Total_Hours_After_Flight (last (read_flights_df fs tail))) + h)"
  "Total_Landings_After_Flight (new_row fs d tail a b n h)
     = (if read_flights_df fs tail = [] then 0
        else Total_Landings_After_Flight (last (read_flights_df fs tail))) + n"
  by (simp_all add: new_row_def Let_def)

lemma produced_invariant:
  "produced fs \<Longrightarrow>
   running_totals 0 0 (read_flights_df fs t)
   \<and> (\<forall>r \<in> set (read_flights_df fs t). Flight_Duration r * 100 \<in> \<int>)"
proof (induction arbitrary: t rule: produced.induct)
  case fresh
  then show ?case by (simp add: read_flights_df_def)
next
  case (call fs d tail a b n)
  let ?fs' = "fst (add_flight_record fs d tail a b n)"
  from add_flight_record_logs [of fs d tail a b n]
  show ?case
  proof
    assume "?fs' = fs"
    with call.IH show ?thesis by simp
  next
    assume "\<exists>h. calc_duration_hours d a b = Inr h \<and> strip tail \<noteq> []
         \<and> add_flight_record fs d tail a b n
            = (write_flights_df fs (upper (strip tail))
                 (read_flights_df fs tail @ [new_row fs d tail a b n h]),
               Returned True (Text ''Flight added successfully.''))"
    then obtain h where h: "calc_duration_hours d a b = Inr h"
      and w: "?fs' = write_flights_df fs (upper (strip tail))
                 (read_flights_df fs tail @ [new_row fs d tail a b n h])"
      by auto
    show ?thesis
    proof (cases "aircraft_folder t = aircraft_folder (upper (strip tail))")
      case False
      with w call.IH [of t] show ?thesis by (simp add: read_write_other)
    next
      case True
      then have same: "aircraft_folder t = aircraft_folder tail"
        by (simp add: aircraft_folder_def strip_upper)
      have r: "read_flights_df ?fs' t = read_flights_df fs tail @ [new_row fs d tail a b n h]"
        using w True by (simp add: read_write_folder)
      from call.IH [of tail] calc_duration_hours_hundredths [OF h]
      show ?thesis unfolding r
        by (simp add: running_totals_snoc new_row_totals)
    qed
  qed
qed

lemma add_flight_record_success:
  "snd (add_flight_record fs d tail a b n) = Returned True m \<Longrightarrow>
   \<exists>h. calc_duration_hours d a b = Inr h \<and> strip tail \<noteq> []
       \<and> detect_overlap fs (upper (strip tail)) d a b = Inr False
       \<and> fst (add_flight_record fs d tail a b n)
            = write_flights_df fs (upper (strip tail))
                 (read_flights_df fs tail @ [new_row fs d tail a b n h])"
  by (auto simp: add_flight_record_def new_row_def Let_def split: sum.splits bool.splits if_splits)

lemma example_logs_first_call:
  "fst (add_flight_record (\<lambda>folder. Missing) ''2024-01-01'' ''N123AB'' ''10:00'' ''12:00'' 1)
     = example_logs"
proof -
  have k1: "strip ''N123AB'' \<noteq> []" by code_simp
  have k2: "request_interval ''2024-01-01'' ''10:00'' ''12:00'' = Inr (1063996440, 1063996560)"
    by code_simp
  have k3: "read_flights_df (\<lambda>folder. Missing) ''N123AB'' = []" by code_simp
  have k4: "round2 (of_int ((1063996560 - 1063996440) * 60) / 3600) = 2" by code_simp
  have k5: "upper (strip ''N123AB'') = ''N123AB''" by code_simp
  have k6: "aircraft_folder ''N123AB'' = ''N123AB''" by code_simp
  have k7: "round2 2 = 2" by code_simp
  have "\<not> overlap_loop 1063996440 1063996560 (read_flights_df (\<lambda>folder. Missing) ''N123AB'')"
    by (simp add: k3)
  from add_flight_record_accepts [OF k1 k2 this, of 1]
  show ?thesis
    by (simp add: k3 k4 k5 k6 k7 new_row_def write_flights_df_def example_logs_def flight_10_12_def)
qed

lemma produced_example_logs: "produced example_logs"
  using produced.call [OF produced.fresh, of "''2024-01-01''" "''N123AB''" "''10:00''" "''12:00''" 1]
  by (simp only: example_logs_first_call)

lemma produced_logs_after_two: "produced logs_after_two"
  unfolding logs_after_two_def by (rule produced.call [OF produced_example_logs])

lemma read_logs_after_two:
  "read_flights_df logs_after_two ''N123AB''
       = [flight_10_12,
          \<lparr>Date = Str ''2024-01-01'', Tail_Number = Str ''N123AB'', Takeoff_Time = Str ''12:00'',
           Landing_Time = Str ''12:20'', Flight_Duration = 33 / 100, Landings_This_Flight = 2,
           Total_Hours_After_Flight = 233 / 100, Total_Landings_After_Flight = 3\<rparr>]"
  by code_simp


section \<open>Overlapping requests\<close>

lemma add_flight_record_rejects:
  assumes t: "strip tail \<noteq> []"
    and i: "request_interval d a b = Inr (ns, ne)"
    and f: "overlap_loop ns ne (read_flights_df fs tail)"
  shows "add_flight_record fs d tail a b n =
     (fs, Returned False (Text ''Overlap detected with existing flight.''))"
proof -
  have "read_flights_df fs tail \<noteq> []" using f by auto
  then have "detect_overlap fs (upper (strip tail)) d a b = Inr True"
    using i f by (simp add: detect_overlap_interval)
  with t calc_of_interval [OF i] show ?thesis
    by (rule_tac add_flight_record_overlap) auto
qed

lemma detect_overlap_when:
  assumes i: "request_interval d a b = Inr (ns, ne)"
    and r: "r \<in> set (read_flights_df fs tail)"
    and e: "existing_interval r = Inr (es, ee)"
    and o: "ns < ee" "es < ne"
  shows "detect_overlap fs tail d a b = Inr True"
    and "overlap_loop ns ne (read_flights_df fs tail)"
proof -
  show l: "overlap_loop ns ne (read_flights_df fs tail)"
    unfolding overlap_loop_iff using r e o by blast
  then have "read_flights_df fs tail \<noteq> []" by auto
  with i l show "detect_overlap fs tail d a b = Inr True"
    by (simp add: detect_overlap_interval)
qed

lemma existing_interval_rolled:
  assumes "existing_interval r = Inr (es, ee)"
    and "parse_cells (Date r) (Landing_Time r) = Inr e0" and "e0 < es"
  shows "ee = e0 + 1440"
  using assms
  by (auto simp: existing_interval_def add_one_day_def split: sum.splits if_splits)

lemma request_interval_rolled:
  assumes "request_interval d a b = Inr (ns, ne)"
    and "parse_datetime d b = Inr n0" and "n0 < ns"
  shows "ne = n0 + 1440"
  using assms
  by (auto simp: request_interval_def add_one_day_def split: sum.splits if_splits)

lemma toordinal_next: "toordinal (t + 1440) = toordinal t + 1"
  by (simp add: toordinal_def)

lemma toordinal_bounds: "toordinal t * 1440 \<le> t \<and> t < (toordinal t + 1) * 1440"
  unfolding toordinal_def by (simp add: algebra_simps) presburger


section \<open>Requests of zero length\<close>

lemma round2_zero [simp]: "round2 0 = 0"
  by (simp add: round2_def round_half_even_def)

lemma request_interval_same:
  "parse_datetime d a = Inr t \<Longrightarrow> request_interval d a a = Inr (t, t)"
  by (simp add: request_interval_def)

lemma calc_duration_hours_same:
  "parse_datetime d a = Inr t \<Longrightarrow> calc_duration_hours d a a = Inr 0"
  by (simp add: calc_of_interval [OF request_interval_same])

lemma new_row_cells:
  "Date (new_row fs d tail a b n h) = Str d"
  "Takeoff_Time (new_row fs d tail a b n h) = Str a"
  "Landing_Time (new_row fs d tail a b n h) = Str b"
  by (simp_all add: new_row_def Let_def)

lemma existing_interval_new_row:
  "existing_interval (new_row fs d tail a b n h) = request_interval d a b"
  by (simp add: existing_interval_def request_interval_def new_row_cells parse_cells_def
        split: sum.splits)

lemma add_flight_record_success_iff:
  assumes t: "strip tail \<noteq> []" and i: "request_interval d a b = Inr (ns, ne)"
  shows "snd (add_flight_record fs d tail a b n) = Returned True (Text ''Flight added successfully.'')
         \<longleftrightarrow> \<not> overlap_loop ns ne (read_flights_df fs tail)"
proof (cases "overlap_loop ns ne (read_flights_df fs tail)")
  case True
  with add_flight_record_rejects [OF t i True, of n] show ?thesis by simp
next
  case False
  with add_flight_record_accepts [OF t i False, of n] show ?thesis by simp
qed

lemma first_call_any_landings:
  "add_flight_record (\<lambda>folder. Missing) ''2024-01-01'' ''N123AB'' ''10:00'' ''12:00'' n
     = (write_flights_df (\<lambda>folder. Missing) ''N123AB''
          [new_row (\<lambda>folder. Missing) ''2024-01-01'' ''N123AB'' ''10:00'' ''12:00'' n 2],
        Returned True (Text ''Flight added successfully.''))"
proof -
  have k1: "strip ''N123AB'' \<noteq> []" by code_simp
  have k2: "request_interval ''2024-01-01'' ''10:00'' ''12:00'' = Inr (1063996440, 1063996560)"
    by code_simp
  have k3: "read_flights_df (\<lambda>folder. Missing) ''N123AB'' = []" by code_simp
  have k4: "round2 (of_int ((1063996560 - 1063996440) * 60) / 3600) = 2" by code_simp
  have k5: "upper (strip ''N123AB'') = ''N123AB''" by code_simp
  have k6: "round2 2 = 2" by code_simp
  have "\<not> overlap_loop 1063996440 1063996560 (read_flights_df (\<lambda>folder. Missing) ''N123AB'')"
    by (simp add: k3)
  from add_flight_record_accepts [OF k1 k2 this, of n]
  show ?thesis by (simp add: k3 k4 k5 k6)
qed


section \<open>What the format expression consumes\<close>

lemma cls_rest: "(v, r') \<in> set (cls lo hi r) \<Longrightarrow> \<exists>c. r = c # r' \<and> isdigit c"
  by (auto simp: cls_def split: list.splits if_splits)

lemma two_cls_rest:
  "(v, r') \<in> set (two (cls a b) (cls c d) r) \<Longrightarrow> \<exists>c1 c2. r = c1 # c2 # r' \<and> isdigit c2"
  by (auto simp: two_def List.bind_def dest!: cls_rest)

lemma lit_rest: "r' \<in> set (lit c r) \<Longrightarrow> r = c # r'"
  by (auto simp: lit_def split: list.splits if_splits)

lemma spaces_rest: "r' \<in> set (spaces r) \<Longrightarrow> suffix r' r"
proof (induction r)
  case Nil
  then show ?case by simp
next
  case (Cons c r)
  then show ?case by (auto simp: suffix_Cons split: if_splits)
qed

lemma rx_M_rest:
  "(v, r') \<in> set (rx_M r) \<Longrightarrow> \<exists>p c. r = p @ c # r' \<and> isdigit c"
proof -
  assume "(v, r') \<in> set (rx_M r)"
  then consider "(v, r') \<in> set (two (cls 0 5) (cls 0 9) r)" | "(v, r') \<in> set (cls 0 9 r)"
    by (auto simp: rx_M_def)
  then show ?thesis
  proof cases
    case 1
    then obtain c1 c2 where "r = c1 # c2 # r'" "isdigit c2" using two_cls_rest by blast
    then have "r = [c1] @ c2 # r'" by simp
    with \<open>isdigit c2\<close> show ?thesis by blast
  next
    case 2
    then obtain c where "r = c # r'" "isdigit c" using cls_rest by blast
    then have "r = [] @ c # r'" by simp
    with \<open>isdigit c\<close> show ?thesis by blast
  qed
qed

lemma rx_Y_rest: "(v, r') \<in> set (rx_Y r) \<Longrightarrow> suffix r' r"
  by (auto simp: rx_Y_def List.bind_def suffix_def dest!: two_cls_rest)

lemma rx_m_rest: "(v, r') \<in> set (rx_m r) \<Longrightarrow> suffix r' r"
  by (auto simp: rx_m_def suffix_def dest!: two_cls_rest cls_rest)

lemma rx_d_rest: "(v, r') \<in> set (rx_d r) \<Longrightarrow> suffix r' r"
  by (auto simp: rx_d_def suffix_def List.bind_def dest!: two_cls_rest cls_rest lit_rest)

lemma rx_H_rest: "(v, r') \<in> set (rx_H r) \<Longrightarrow> suffix r' r"
  by (auto simp: rx_H_def suffix_def dest!: two_cls_rest cls_rest)

lemma lit_suffix: "r' \<in> set (lit c r) \<Longrightarrow> suffix r' r"
  by (auto simp: suffix_def dest!: lit_rest)

lemma format_regex_rest:
  assumes "(v, r) \<in> set (format_regex s)"
  shows "\<exists>p c. s = p @ c # r \<and> isdigit c"
proof -
  from assms obtain Y r1 r2 m r3 r4 d r5 r6 H r7 r8 M where
    s: "(Y, r1) \<in> set (rx_Y s)" "r2 \<in> set (lit CHR ''-'' r1)" "(m, r3) \<in> set (rx_m r2)"
       "r4 \<in> set (lit CHR ''-'' r3)" "(d, r5) \<in> set (rx_d r4)" "r6 \<in> set (spaces r5)"
       "(H, r7) \<in> set (rx_H r6)" "r8 \<in> set (lit CHR '':'' r7)" "(M, r) \<in> set (rx_M r8)"
    unfolding format_regex_def List.bind_def by auto
  have "suffix r8 s"
    using rx_Y_rest [OF s(1)] lit_suffix [OF s(2)] rx_m_rest [OF s(3)] lit_suffix [OF s(4)]
      rx_d_rest [OF s(5)] spaces_rest [OF s(6)] rx_H_rest [OF s(7)] lit_suffix [OF s(8)]
    by (meson suffix_order.trans)
  then obtain q where q: "s = q @ r8" by (auto simp: suffix_def)
  from rx_M_rest [OF s(9)] obtain p c where "r8 = p @ c # r" "isdigit c" by blast
  with q have "s = (q @ p) @ c # r" by simp
  with \<open>isdigit c\<close> show ?thesis by blast
qed

lemma isdigit_not_space: "isdigit c \<Longrightarrow> \<not> isspace c"
  by (auto simp: isdigit_def isspace_def Let_def)

lemma strptime_trailing_blank: "\<exists>e. strptime (s @ '' '') = Inl e"
proof (cases "format_regex (s @ '' '')")
  case Nil
  then show ?thesis by (simp add: strptime_def)
next
  case (Cons x xs)
  obtain v r where x: "x = (v, r)" by (cases x)
  have "r \<noteq> []"
  proof
    assume "r = []"
    with Cons x have "(v, []) \<in> set (format_regex (s @ '' ''))" by simp
    from format_regex_rest [OF this] obtain p c where "s @ '' '' = p @ [c]" "isdigit c" by auto
    then have "c = CHR '' ''" by (metis last_snoc append_assoc append_Cons append_Nil)
    with \<open>isdigit c\<close> show False by (simp add: isdigit_def)
  qed
  with Cons x show ?thesis by (auto simp: strptime_def split: prod.splits)
qed

lemma strptime_leading_blank: "\<exists>e. strptime (CHR '' '' # s) = Inl e"
proof -
  have "format_regex (CHR '' '' # s) = []"
    by (simp add: format_regex_def rx_Y_def two_def cls_def isdigit_def)
  then show ?thesis by (simp add: strptime_def)
qed

lemma parse_datetime_empty_date: "strip d = [] \<Longrightarrow> \<exists>e. parse_datetime d t = Inl e"
  using strptime_leading_blank by (simp add: parse_datetime_def)

lemma parse_datetime_empty_time: "strip t = [] \<Longrightarrow> \<exists>e. parse_datetime d t = Inl e"
  using strptime_trailing_blank [of "strip d"] by (simp add: parse_datetime_def)

lemma calc_duration_hours_parse_error:
  "parse_datetime d a = Inl e \<Longrightarrow> calc_duration_hours d a b = Inl e"
  "parse_datetime d a = Inr t \<Longrightarrow> parse_datetime d b = Inl e \<Longrightarrow> calc_duration_hours d a b = Inl e"
  by (simp_all add: calc_duration_hours_def)

lemma calc_duration_hours_empty_field:
  assumes "strip d = [] \<or> strip a = [] \<or> strip b = []"
  shows "\<exists>e. calc_duration_hours d a b = Inl e"
proof (cases "parse_datetime d a")
  case (Inl e)
  then show ?thesis by (auto simp: calc_duration_hours_parse_error)
next
  case (Inr t)
  with assms parse_datetime_empty_date [of d a] parse_datetime_empty_time [of a d]
  have "strip b = [] \<or> strip d = []" by auto
  with parse_datetime_empty_date [of d b] parse_datetime_empty_time [of b d]
  obtain e where "parse_datetime d b = Inl e" by auto
  with Inr show ?thesis by (auto simp: calc_duration_hours_parse_error)
qed


section \<open>Parsing the fixed format\<close>

lemma of_char_digit_char: "0 \<le> k \<Longrightarrow> k \<le> 9 \<Longrightarrow> (of_char (digit_char k) :: nat) = 48 + nat k"
  by (simp add: digit_char_def of_char_of [where ?'a = nat])

lemma isdigit_digit_char [simp]: "0 \<le> k \<Longrightarrow> k \<le> 9 \<Longrightarrow> isdigit (digit_char k)"
  by (simp add: isdigit_def of_char_digit_char)

lemma digit_val_digit_char [simp]: "0 \<le> k \<Longrightarrow> k \<le> 9 \<Longrightarrow> digit_val (digit_char k) = k"
  by (simp add: digit_val_def of_char_digit_char)

lemma digit_char_not_space [simp]: "0 \<le> k \<Longrightarrow> k \<le> 9 \<Longrightarrow> \<not> isspace (digit_char k)"
  by (simp add: isdigit_not_space)

lemma digit_char_neq [simp]:
  assumes "0 \<le> k" "k \<le> 9"
  shows "digit_char k \<noteq> CHR ''-''" "digit_char k \<noteq> CHR '':''" "digit_char k \<noteq> CHR '' ''"
    "CHR ''-'' \<noteq> digit_char k" "CHR '':'' \<noteq> digit_char k" "CHR '' '' \<noteq> digit_char k"
proof -
  have "\<not> isdigit CHR ''-''" "\<not> isdigit CHR '':''" "\<not> isdigit CHR '' ''"
    by (simp_all add: isdigit_def)
  with isdigit_digit_char [OF assms]
  show "digit_char k \<noteq> CHR ''-''" "digit_char k \<noteq> CHR '':''" "digit_char k \<noteq> CHR '' ''"
    "CHR ''-'' \<noteq> digit_char k" "CHR '':'' \<noteq> digit_char k" "CHR '' '' \<noteq> digit_char k"
    by metis+
qed






lemma isspace_blank [simp]: "isspace CHR '' ''"
  by (simp add: isspace_def)


lemma spaces_digit: "0 \<le> h \<Longrightarrow> h \<le> 9 \<Longrightarrow> spaces (digit_char h # r) = []"
  by simp













section \<open>Loading a log\<close>

lemma read_write_same [simp]:
  "read_flights_df (write_flights_df fs t df) t = df"
  by (simp add: read_flights_df_def write_flights_df_def)

lemma load_returns_file_rows_or_nothing:
  "(fs (aircraft_folder t) = Missing \<longrightarrow> read_flights_df fs t = [])
   \<and> (fs (aircraft_folder t) = Unreadable \<longrightarrow> read_flights_df fs t = [])
   \<and> (\<forall>df. fs (aircraft_folder t) = Frame df \<longrightarrow> read_flights_df fs t = df)
   \<and> read_flights_df (\<lambda>folder. Missing) t = []"
  by (simp add: read_flights_df_def)



section \<open>Rejected calls\<close>

text \<open>
  Claim C4. A call of \<open>add_flight_record\<close> that is rejected returns \<open>False\<close> and leaves
  every log as it was. The tail number that is empty once trimmed, a date or time that
  does not parse, and an overlap with a flight on file are each rejected; the overlap
  with the message \<open>Overlap detected with existing flight.\<close> Whatever message comes
  with \<open>False\<close>, the logs after the call are the logs before it, and reading any
  aircraft gives the same rows. The call always returns.
\<close>

theorem rejected_call_leaves_logs:
  "(strip tail = [] \<longrightarrow>
      add_flight_record fs d tail a b n = (fs, Returned False (Text ''Tail number required.'')))
   \<and> (strip tail \<noteq> [] \<and> calc_duration_hours d a b = Inl e \<longrightarrow>
      add_flight_record fs d tail a b n = (fs, Returned False (Date_time_parse_error e)))
   \<and> (strip tail \<noteq> [] \<and> calc_duration_hours d a b = Inr h
        \<and> detect_overlap fs (upper (strip tail)) d a b = Inr True \<longrightarrow>
      add_flight_record fs d tail a b n =
        (fs, Returned False (Text ''Overlap detected with existing flight.'')))
   \<and> (\<forall>m. snd (add_flight_record fs d tail a b n) = Returned False m \<longrightarrow>
        fst (add_flight_record fs d tail a b n) = fs
        \<and> (\<forall>t. read_flights_df (fst (add_flight_record fs d tail a b n)) t = read_flights_df fs t))
   \<and> (\<exists>ok m. snd (add_flight_record fs d tail a b n) = Returned ok m)"
  using add_flight_record_empty_tail [of tail fs d a b n]
    add_flight_record_parse_error [of tail d a b e fs n]
    add_flight_record_overlap [of tail d a b h fs n]
    add_flight_record_rejected_logs [of fs d tail a b n]
    add_flight_record_total [of fs d tail a b n]
  by auto

theorem rejected_call_leaves_logs_witness:
  "add_flight_record example_logs ''2024-01-01'' ''  '' ''10:00'' ''11:00'' 1
     = (example_logs, Returned False (Text ''Tail number required.''))
   \<and> add_flight_record example_logs ''2024-01-01'' ''N123AB'' ''10:00'' ''25:00'' 1
     = (example_logs, Returned False (Date_time_parse_error
          (ValueError (does_not_match_format ''2024-01-01 25:00''))))
   \<and> add_flight_record example_logs ''2024-01-01'' ''N123AB'' ''11:00'' ''11:30'' 1
     = (example_logs, Returned False (Text ''Overlap detected with existing flight.''))
   \<and> read_flights_df
        (fst (add_flight_record example_logs ''2024-01-01'' ''N123AB'' ''11:00'' ''11:30'' 1))
        ''N123AB'' = [flight_10_12]"
proof -
  have k1: "strip ''  '' = []" by code_simp
  have k2: "strip ''N123AB'' \<noteq> []" by code_simp
  have k3: "calc_duration_hours ''2024-01-01'' ''10:00'' ''25:00''
              = Inl (ValueError (does_not_match_format ''2024-01-01 25:00''))"
    by code_simp
  have k4: "calc_duration_hours ''2024-01-01'' ''11:00'' ''11:30'' = Inr (1 / 2)"
    by code_simp
  have k5: "detect_overlap example_logs (upper (strip ''N123AB'')) ''2024-01-01'' ''11:00'' ''11:30''
              = Inr True"
    by code_simp
  have k6: "read_flights_df example_logs ''N123AB'' = [flight_10_12]" by code_simp
  note r1 = rejected_call_leaves_logs [where tail = "''  ''" and fs = example_logs
      and d = "''2024-01-01''" and a = "''10:00''" and b = "''11:00''" and n = 1]
  note r2 = rejected_call_leaves_logs [where tail = "''N123AB''" and fs = example_logs
      and d = "''2024-01-01''" and a = "''10:00''" and b = "''25:00''" and n = 1
      and e = "ValueError (does_not_match_format ''2024-01-01 25:00'')"]
  note r3 = rejected_call_leaves_logs [where tail = "''N123AB''" and fs = example_logs
      and d = "''2024-01-01''" and a = "''11:00''" and b = "''11:30''" and n = 1
      and h = "1 / 2"]
  show ?thesis using r1 r2 r3 k1 k2 k3 k4 k5 k6 by simp
qed


section \<open>The overlap test\<close>

text \<open>
  Claim C1. For a request whose interval is \<open>(ns, ne)\<close> after the rollover,
  \<open>detect_overlap\<close> answers whether some row of the aircraft's log, with its own
  interval \<open>(es, ee)\<close> rebuilt by the same rule, has \<open>ns < ee\<close> and \<open>ne > es\<close>; rows
  that do not parse are passed over. With no rows the answer is \<open>False\<close>. Intervals
  that only touch do not overlap: when each row on file ends no later than the request
  starts, or starts no earlier than the request ends, the request is accepted.
\<close>

theorem overlap_is_open_interval_test:
  "(read_flights_df fs t = [] \<longrightarrow> detect_overlap fs t d a b = Inr False)
   \<and> (request_interval d a b = Inr (ns, ne) \<longrightarrow>
        detect_overlap fs t d a b
          = Inr (\<exists>r \<in> set (read_flights_df fs t). \<exists>es ee.
                   existing_interval r = Inr (es, ee) \<and> ns < ee \<and> ne > es))
   \<and> (request_interval d a b = Inr (ns, ne) \<and> strip t \<noteq> []
        \<and> (\<forall>r \<in> set (read_flights_df fs t). \<forall>es ee.
              existing_interval r = Inr (es, ee) \<longrightarrow> ee \<le> ns \<or> ne \<le> es) \<longrightarrow>
        snd (add_flight_record fs d t a b n) = Returned True (Text ''Flight added successfully.''))"
proof (intro conjI impI)
  assume "read_flights_df fs t = []"
  then show "detect_overlap fs t d a b = Inr False" by (simp add: detect_overlap_interval)
next
  assume "request_interval d a b = Inr (ns, ne)"
  then show "detect_overlap fs t d a b
          = Inr (\<exists>r \<in> set (read_flights_df fs t). \<exists>es ee.
                   existing_interval r = Inr (es, ee) \<and> ns < ee \<and> ne > es)"
    by (simp add: detect_overlap_parsed overlap_loop_iff)
next
  assume a: "request_interval d a b = Inr (ns, ne) \<and> strip t \<noteq> []
        \<and> (\<forall>r \<in> set (read_flights_df fs t). \<forall>es ee.
              existing_interval r = Inr (es, ee) \<longrightarrow> ee \<le> ns \<or> ne \<le> es)"
  then have "\<not> overlap_loop ns ne (read_flights_df fs t)"
    by (fastforce simp: overlap_loop_iff)
  with a show "snd (add_flight_record fs d t a b n) = Returned True (Text ''Flight added successfully.'')"
    by (simp add: add_flight_record_accepts)
qed

theorem overlap_is_open_interval_test_witness:
  "detect_overlap (\<lambda>folder. Missing) ''N123AB'' ''2024-01-01'' ''12:00'' ''13:00'' = Inr False
   \<and> detect_overlap example_logs ''N123AB'' ''2024-01-01'' ''12:00'' ''13:00'' = Inr False
   \<and> detect_overlap example_logs ''N123AB'' ''2024-01-01'' ''11:59'' ''13:00'' = Inr True
   \<and> snd (add_flight_record example_logs ''2024-01-01'' ''N123AB'' ''12:00'' ''13:00'' 1)
       = Returned True (Text ''Flight added successfully.'')
   \<and> snd (add_flight_record example_logs ''2024-01-01'' ''N123AB'' ''09:00'' ''10:00'' 1)
       = Returned True (Text ''Flight added successfully.'')"
proof -
  have k0: "read_flights_df (\<lambda>folder. Missing) ''N123AB'' = []" by code_simp
  have k1: "read_flights_df example_logs ''N123AB'' = [flight_10_12]" by code_simp
  have k2: "existing_interval flight_10_12 = Inr (1063996440, 1063996560)" by code_simp
  have k3: "request_interval ''2024-01-01'' ''12:00'' ''13:00'' = Inr (1063996560, 1063996620)"
    by code_simp
  have k4: "request_interval ''2024-01-01'' ''11:59'' ''13:00'' = Inr (1063996559, 1063996620)"
    by code_simp
  have k5: "request_interval ''2024-01-01'' ''09:00'' ''10:00'' = Inr (1063996380, 1063996440)"
    by code_simp
  have k6: "strip ''N123AB'' \<noteq> []" by code_simp
  note w0 = overlap_is_open_interval_test [where fs = "\<lambda>folder. Missing" and t = "''N123AB''"
      and d = "''2024-01-01''" and a = "''12:00''" and b = "''13:00''"]
  note w1 = overlap_is_open_interval_test [where fs = example_logs and t = "''N123AB''"
      and d = "''2024-01-01''" and a = "''12:00''" and b = "''13:00''"
      and ns = 1063996560 and ne = 1063996620 and n = 1]
  note w2 = overlap_is_open_interval_test [where fs = example_logs and t = "''N123AB''"
      and d = "''2024-01-01''" and a = "''11:59''" and b = "''13:00''"
      and ns = 1063996559 and ne = 1063996620]
  note w3 = overlap_is_open_interval_test [where fs = example_logs and t = "''N123AB''"
      and d = "''2024-01-01''" and a = "''09:00''" and b = "''10:00''"
      and ns = 1063996380 and ne = 1063996440 and n = 1]
  show ?thesis using w0 w1 w2 w3 by (simp add: k0 k1 k2 k3 k4 k5 k6)
qed


section \<open>The rollover past midnight\<close>

text \<open>
  Claim C2. When the interval of a request parses, and the landing instant read on the
  request's date is strictly earlier than the takeoff instant, the end of the interval
  is that instant plus exactly 24 hours (1440 minutes); otherwise the end is the instant
  itself. No further day is ever added. For 2024-01-01 with takeoff 23:30 and landing
  00:15 the interval ends at 00:15 on 2024-01-02 and the duration is 0.75 hours.
\<close>

theorem rollover_adds_one_day_once:
  "(request_interval d a b = Inr (s, e) \<and> parse_datetime d b = Inr e0 \<longrightarrow>
      parse_datetime d a = Inr s
      \<and> (e0 < s \<longrightarrow> e = e0 + 1440)
      \<and> (\<not> e0 < s \<longrightarrow> e = e0)
      \<and> calc_duration_hours d a b = Inr (round2 (of_int ((e - s) * 60) / 3600)))
   \<and> request_interval ''2024-01-01'' ''23:30'' ''00:15'' = Inr (1063997250, 1063997295)
   \<and> mk_datetime 2024 1 1 23 30 = Inr 1063997250
   \<and> mk_datetime 2024 1 2 0 15 = Inr 1063997295
   \<and> toordinal 1063997295 = ymd2ord 2024 1 2
   \<and> calc_duration_hours ''2024-01-01'' ''23:30'' ''00:15'' = Inr (3 / 4)"
proof (intro conjI impI)
  assume h: "request_interval d a b = Inr (s, e) \<and> parse_datetime d b = Inr e0"
  then show "parse_datetime d a = Inr s"
    by (auto simp: request_interval_def add_one_day_def split: sum.splits if_splits)
  from h show "e = e0" if "\<not> e0 < s"
    using that by (auto simp: request_interval_def add_one_day_def split: sum.splits if_splits)
  from h show "e = e0 + 1440" if "e0 < s"
    using that by (auto simp: request_interval_def add_one_day_def split: sum.splits if_splits)
  from h show "calc_duration_hours d a b = Inr (round2 (of_int ((e - s) * 60) / 3600))"
    by (simp add: calc_of_interval)
next
  show "request_interval ''2024-01-01'' ''23:30'' ''00:15'' = Inr (1063997250, 1063997295)"
    by code_simp
  show "mk_datetime 2024 1 1 23 30 = Inr 1063997250" by code_simp
  show "mk_datetime 2024 1 2 0 15 = Inr 1063997295" by code_simp
  show "toordinal 1063997295 = ymd2ord 2024 1 2" by code_simp
  show "calc_duration_hours ''2024-01-01'' ''23:30'' ''00:15'' = Inr (3 / 4)" by code_simp
qed

theorem rollover_adds_one_day_once_witness:
  "parse_datetime ''2024-01-01'' ''00:15'' = Inr 1063995855
   \<and> parse_datetime ''2024-01-01'' ''23:30'' = Inr 1063997250
   \<and> (1063997295 :: int) = 1063995855 + 1440
   \<and> request_interval ''2024-01-01'' ''10:00'' ''12:00'' = Inr (1063996440, 1063996560)
   \<and> parse_datetime ''2024-01-01'' ''12:00'' = Inr 1063996560
   \<and> calc_duration_hours ''2024-01-01'' ''10:00'' ''12:00'' = Inr 2"
proof -
  have k1: "parse_datetime ''2024-01-01'' ''00:15'' = Inr 1063995855" by code_simp
  have k2: "request_interval ''2024-01-01'' ''10:00'' ''12:00'' = Inr (1063996440, 1063996560)"
    by code_simp
  have k3: "parse_datetime ''2024-01-01'' ''12:00'' = Inr 1063996560" by code_simp
  have k4: "round2 (of_int ((1063996560 - 1063996440) * 60) / 3600) = 2" by code_simp
  note w1 = rollover_adds_one_day_once [where d = "''2024-01-01''" and a = "''23:30''"
      and b = "''00:15''" and s = 1063997250 and e = 1063997295 and ?e0.0 = 1063995855]
  note w2 = rollover_adds_one_day_once [where d = "''2024-01-01''" and a = "''10:00''"
      and b = "''12:00''" and s = 1063996440 and e = 1063996560 and ?e0.0 = 1063996560]
  show ?thesis using w1 w2 k1 k2 k3 k4 by simp
qed


section \<open>Cumulative totals\<close>

text \<open>
  Claim C3. In every log that calls of \<open>add_flight_record\<close> have produced, each row's
  total hours are the total hours of the row before it plus the row's own duration,
  rounded to two decimals, and its total landings are those of the row before it plus its
  own; the first row counts from zero. A successful call appends one row whose totals are
  taken from the last row on file, or from zero when there is none. Hence the last
  row's total landings are the sum of the landings of all rows, and its total hours are
  within 0.01 of the rounded sum of all durations.
\<close>

theorem totals_follow_the_log:
  assumes "produced fs" and "L = read_flights_df fs t"
  shows "(\<forall>i < length L.
            Total_Hours_After_Flight (L ! i)
              = round2 ((if i = 0 then 0 else Total_Hours_After_Flight (L ! (i - 1)))
                        + Flight_Duration (L ! i))
            \<and> Total_Landings_After_Flight (L ! i)
              = (if i = 0 then 0 else Total_Landings_After_Flight (L ! (i - 1)))
                + Landings_This_Flight (L ! i))
         \<and> (L \<noteq> [] \<longrightarrow>
              Total_Landings_After_Flight (last L) = sum_list (map Landings_This_Flight L)
              \<and> \<bar>Total_Hours_After_Flight (last L) - round2 (sum_list (map Flight_Duration L))\<bar>
                  \<le> 1 / 100)
         \<and> (\<forall>d tail a b n m.
              snd (add_flight_record fs d tail a b n) = Returned True m \<longrightarrow>
              (\<exists>h. calc_duration_hours d a b = Inr h
                 \<and> read_flights_df (fst (add_flight_record fs d tail a b n)) tail
                    = read_flights_df fs tail @ [new_row fs d tail a b n h]))"
proof (intro conjI allI impI)
  note inv = produced_invariant [OF assms(1), of t, folded assms(2)]
  fix i assume "i < length L"
  with inv running_totals_nth [of 0 0 L i]
  show "Total_Hours_After_Flight (L ! i)
              = round2 ((if i = 0 then 0 else Total_Hours_After_Flight (L ! (i - 1)))
                        + Flight_Duration (L ! i))"
    and "Total_Landings_After_Flight (L ! i)
              = (if i = 0 then 0 else Total_Landings_After_Flight (L ! (i - 1)))
                + Landings_This_Flight (L ! i)"
    by blast+
next
  note inv = produced_invariant [OF assms(1), of t, folded assms(2)]
  assume ne: "L \<noteq> []"
  have s: "Total_Hours_After_Flight (last L) = 0 + sum_list (map Flight_Duration L)
     \<and> Total_Landings_After_Flight (last L) = 0 + sum_list (map Landings_This_Flight L)"
    using inv ne by (intro running_totals_sum) auto
  then show "Total_Landings_After_Flight (last L) = sum_list (map Landings_This_Flight L)"
    by simp
  have "round2 (sum_list (map Flight_Duration L)) = sum_list (map Flight_Duration L)"
    using inv by (intro round2_fixed sum_hundredths) blast
  with s show "\<bar>Total_Hours_After_Flight (last L) - round2 (sum_list (map Flight_Duration L))\<bar>
                  \<le> 1 / 100"
    by simp
next
  fix d tail a b n m
  assume ok: "snd (add_flight_record fs d tail a b n) = Returned True m"
  from add_flight_record_success [OF ok]
  show "\<exists>h. calc_duration_hours d a b = Inr h
                 \<and> read_flights_df (fst (add_flight_record fs d tail a b n)) tail
                    = read_flights_df fs tail @ [new_row fs d tail a b n h]"
    by (auto simp: read_write_folder aircraft_folder_def strip_upper)
qed

theorem totals_follow_the_log_witness:
  "produced logs_after_two
   \<and> read_flights_df logs_after_two ''N123AB''
       = [flight_10_12,
          \<lparr>Date = Str ''2024-01-01'', Tail_Number = Str ''N123AB'', Takeoff_Time = Str ''12:00'',
           Landing_Time = Str ''12:20'', Flight_Duration = 33 / 100, Landings_This_Flight = 2,
           Total_Hours_After_Flight = 233 / 100, Total_Landings_After_Flight = 3\<rparr>]
   \<and> Total_Landings_After_Flight (last (read_flights_df logs_after_two ''N123AB'')) = 1 + 2
   \<and> \<bar>Total_Hours_After_Flight (last (read_flights_df logs_after_two ''N123AB''))
        - round2 (2 + 33 / 100)\<bar> \<le> 1 / 100"
proof -
  note w = totals_follow_the_log [OF produced_logs_after_two refl, of "''N123AB''"]
  note w2 = conjunct1 [OF conjunct2 [OF w]]
  have ne: "read_flights_df logs_after_two ''N123AB'' \<noteq> []"
    by (simp add: read_logs_after_two)
  from w2 ne
  have "Total_Landings_After_Flight (last (read_flights_df logs_after_two ''N123AB''))
          = sum_list (map Landings_This_Flight (read_flights_df logs_after_two ''N123AB''))
        \<and> \<bar>Total_Hours_After_Flight (last (read_flights_df logs_after_two ''N123AB''))
             - round2 (sum_list (map Flight_Duration (read_flights_df logs_after_two ''N123AB'')))\<bar>
            \<le> 1 / 100"
    by blast
  then have "Total_Landings_After_Flight (last (read_flights_df logs_after_two ''N123AB'')) = 1 + 2
        \<and> \<bar>Total_Hours_After_Flight (last (read_flights_df logs_after_two ''N123AB''))
             - round2 (2 + 33 / 100)\<bar> \<le> 1 / 100"
    unfolding read_logs_after_two by (simp add: flight_10_12_def)
  with produced_logs_after_two read_logs_after_two show ?thesis by blast
qed


section \<open>The date and time format\<close>





section \<open>Empty fields\<close>

text \<open>
  Claim C7, as the code has it. A call whose tail number is empty once trimmed returns
  \<open>False\<close> with \<open>Tail number required.\<close> before anything is parsed, whatever the
  other fields hold, and changes no log. A call with a tail number whose date, takeoff
  time or landing time is empty once trimmed is rejected as well and changes no log, but
  it is the parse that rejects it: the message is \<open>Date/time parse error:\<close> with the
  exception that \<open>calc_duration_hours\<close> raised.
\<close>

theorem empty_fields_are_rejected:
  "(strip tail = [] \<longrightarrow>
      add_flight_record fs d tail a b n = (fs, Returned False (Text ''Tail number required.'')))
   \<and> (strip tail \<noteq> [] \<and> (strip d = [] \<or> strip a = [] \<or> strip b = []) \<longrightarrow>
      (\<exists>e. calc_duration_hours d a b = Inl e
          \<and> add_flight_record fs d tail a b n = (fs, Returned False (Date_time_parse_error e))))"
proof (intro conjI impI)
  assume "strip tail = []"
  then show "add_flight_record fs d tail a b n = (fs, Returned False (Text ''Tail number required.''))"
    by (rule add_flight_record_empty_tail)
next
  assume h: "strip tail \<noteq> [] \<and> (strip d = [] \<or> strip a = [] \<or> strip b = [])"
  then obtain e where e: "calc_duration_hours d a b = Inl e"
    using calc_duration_hours_empty_field by blast
  with h have "add_flight_record fs d tail a b n = (fs, Returned False (Date_time_parse_error e))"
    by (simp add: add_flight_record_parse_error)
  with e show "\<exists>e. calc_duration_hours d a b = Inl e
          \<and> add_flight_record fs d tail a b n = (fs, Returned False (Date_time_parse_error e))"
    by blast
qed

theorem empty_fields_are_rejected_witness:
  "add_flight_record example_logs ''bad date'' ''   '' ''xx'' '''' 1
     = (example_logs, Returned False (Text ''Tail number required.''))
   \<and> (\<exists>e. add_flight_record example_logs ''2024-01-01'' ''N123AB'' ''10:00'' ''  '' 1
            = (example_logs, Returned False (Date_time_parse_error e)))"
proof -
  have k1: "strip ''   '' = []" by code_simp
  have k2: "strip ''N123AB'' \<noteq> []" by code_simp
  have k3: "strip ''  '' = []" by code_simp
  note w1 = empty_fields_are_rejected [where tail = "''   ''" and fs = example_logs
      and d = "''bad date''" and a = "''xx''" and b = "''''" and n = 1, THEN conjunct1]
  note w2 = empty_fields_are_rejected [where tail = "''N123AB''" and fs = example_logs
      and d = "''2024-01-01''" and a = "''10:00''" and b = "''  ''" and n = 1, THEN conjunct2]
  from w1 k1 w2 k2 k3 show ?thesis by blast
qed

text \<open>
  Claim C7 as stated says that an empty time field is refused by a validation before
  parsing is attempted. \<open>add_flight_record\<close> validates the tail number only: with an
  empty takeoff time, or an empty date, the rejection is the exception of the parser.
\<close>

theorem empty_time_field_is_a_parse_error:
  "add_flight_record example_logs ''2024-01-01'' ''N123AB'' '''' ''11:00'' 1
     = (example_logs,
        Returned False (Date_time_parse_error (ValueError (does_not_match_format ''2024-01-01 ''))))
   \<and> add_flight_record example_logs '''' ''N123AB'' ''10:00'' ''11:00'' 1
     = (example_logs,
        Returned False (Date_time_parse_error (ValueError (does_not_match_format '' 10:00''))))"
proof -
  have k2: "strip ''N123AB'' \<noteq> []" by code_simp
  have k3: "calc_duration_hours ''2024-01-01'' '''' ''11:00''
              = Inl (ValueError (does_not_match_format ''2024-01-01 ''))" by code_simp
  have k4: "calc_duration_hours '''' ''10:00'' ''11:00''
              = Inl (ValueError (does_not_match_format '' 10:00''))" by code_simp
  show ?thesis
    by (simp add: add_flight_record_parse_error [OF k2 k3] add_flight_record_parse_error [OF k2 k4])
qed


section \<open>The landings of a flight\<close>

text \<open>
  Claim C8, as the code has it. The row that a successful call appends holds the
  landings argument as it was passed: \<open>add_flight_record\<close> checks no range, so the
  stored count is at least 1 exactly when the argument is.
\<close>

theorem stored_landings_are_the_argument:
  "snd (add_flight_record fs d tail a b n) = Returned True m \<longrightarrow>
     (\<exists>r. read_flights_df (fst (add_flight_record fs d tail a b n)) tail
            = read_flights_df fs tail @ [r]
          \<and> Landings_This_Flight r = n)
     \<and> Landings_This_Flight (last (read_flights_df (fst (add_flight_record fs d tail a b n)) tail)) = n
     \<and> (1 \<le> Landings_This_Flight
                (last (read_flights_df (fst (add_flight_record fs d tail a b n)) tail))
          \<longleftrightarrow> 1 \<le> n)"
proof
  assume ok: "snd (add_flight_record fs d tail a b n) = Returned True m"
  from add_flight_record_success [OF ok] obtain h where
    r: "read_flights_df (fst (add_flight_record fs d tail a b n)) tail
          = read_flights_df fs tail @ [new_row fs d tail a b n h]"
    by (auto simp: read_write_folder aircraft_folder_def strip_upper)
  have l: "Landings_This_Flight (new_row fs d tail a b n h) = n"
    by (simp add: new_row_totals)
  from r l show "(\<exists>r. read_flights_df (fst (add_flight_record fs d tail a b n)) tail
            = read_flights_df fs tail @ [r]
          \<and> Landings_This_Flight r = n)
     \<and> Landings_This_Flight (last (read_flights_df (fst (add_flight_record fs d tail a b n)) tail)) = n
     \<and> (1 \<le> Landings_This_Flight
                (last (read_flights_df (fst (add_flight_record fs d tail a b n)) tail))
          \<longleftrightarrow> 1 \<le> n)"
    by simp
qed

theorem stored_landings_are_the_argument_witness:
  "snd (add_flight_record (\<lambda>folder. Missing) ''2024-01-01'' ''N123AB'' ''10:00'' ''12:00'' 4)
     = Returned True (Text ''Flight added successfully.'')
   \<and> Landings_This_Flight
        (last (read_flights_df
           (fst (add_flight_record (\<lambda>folder. Missing) ''2024-01-01'' ''N123AB'' ''10:00'' ''12:00'' 4))
           ''N123AB'')) = 4"
proof -
  have a: "snd (add_flight_record (\<lambda>folder. Missing) ''2024-01-01'' ''N123AB'' ''10:00'' ''12:00'' 4)
     = Returned True (Text ''Flight added successfully.'')"
    by (simp add: first_call_any_landings)
  from stored_landings_are_the_argument [where fs = "\<lambda>folder. Missing" and d = "''2024-01-01''"
      and tail = "''N123AB''" and a = "''10:00''" and b = "''12:00''" and n = 4
      and m = "Text ''Flight added successfully.''"] a
  show ?thesis by blast
qed

text \<open>
  Claim C8 as stated says that every stored count is at least 1. A call with 0 landings,
  or with -3, succeeds and stores that number.
\<close>

theorem zero_and_negative_landings_are_stored:
  "snd (add_flight_record (\<lambda>folder. Missing) ''2024-01-01'' ''N123AB'' ''10:00'' ''12:00'' 0)
     = Returned True (Text ''Flight added successfully.'')
   \<and> map Landings_This_Flight
        (read_flights_df
           (fst (add_flight_record (\<lambda>folder. Missing) ''2024-01-01'' ''N123AB'' ''10:00'' ''12:00'' 0))
           ''N123AB'') = [0]
   \<and> snd (add_flight_record (\<lambda>folder. Missing) ''2024-01-01'' ''N123AB'' ''10:00'' ''12:00'' (- 3))
     = Returned True (Text ''Flight added successfully.'')
   \<and> map Landings_This_Flight
        (read_flights_df
           (fst (add_flight_record (\<lambda>folder. Missing) ''2024-01-01'' ''N123AB'' ''10:00'' ''12:00'' (- 3)))
           ''N123AB'') = [- 3]"
  by (simp add: first_call_any_landings new_row_totals)


section \<open>Flights of zero length\<close>

text \<open>
  Claim C9, as the code has it. For a request whose takeoff and landing are the same
  clock time, parsing to the instant \<open>t\<close>, the duration is 0. The request is accepted
  exactly when no parsable row of the aircraft's log has \<open>t\<close> strictly inside its
  interval; on an empty log it is always accepted. Whenever it is accepted, the same
  request made again is accepted again, and the log then ends with the two rows of the
  two calls: a row of zero length never overlaps its own copy.
\<close>

theorem zero_length_flight_repeats:
  "parse_datetime d a = Inr t \<and> strip tail \<noteq> [] \<longrightarrow>
     calc_duration_hours d a a = Inr 0
     \<and> (snd (add_flight_record fs d tail a a n) = Returned True (Text ''Flight added successfully.'')
          \<longleftrightarrow> (\<forall>r \<in> set (read_flights_df fs tail). \<forall>es ee.
                 existing_interval r = Inr (es, ee) \<longrightarrow> \<not> (es < t \<and> t < ee)))
     \<and> (read_flights_df fs tail = [] \<longrightarrow>
          snd (add_flight_record fs d tail a a n) = Returned True (Text ''Flight added successfully.''))
     \<and> (snd (add_flight_record fs d tail a a n) = Returned True (Text ''Flight added successfully.'')
          \<longrightarrow> snd (add_flight_record (fst (add_flight_record fs d tail a a n)) d tail a a n)
                = Returned True (Text ''Flight added successfully.'')
              \<and> read_flights_df
                   (fst (add_flight_record (fst (add_flight_record fs d tail a a n)) d tail a a n)) tail
                = read_flights_df fs tail
                  @ [new_row fs d tail a a n 0,
                     new_row (fst (add_flight_record fs d tail a a n)) d tail a a n 0])"
proof (intro impI)
  assume h: "parse_datetime d a = Inr t \<and> strip tail \<noteq> []"
  then have p: "parse_datetime d a = Inr t" and tl: "strip tail \<noteq> []" by auto
  note i = request_interval_same [OF p]
  note c = calc_duration_hours_same [OF p]
  note iff = add_flight_record_success_iff [OF tl i]
  let ?ok = "Returned True (Text ''Flight added successfully.'')"
  let ?fs1 = "fst (add_flight_record fs d tail a a n)"
  have one: "snd (add_flight_record fs d tail a a n) = ?ok
          \<longleftrightarrow> (\<forall>r \<in> set (read_flights_df fs tail). \<forall>es ee.
                 existing_interval r = Inr (es, ee) \<longrightarrow> \<not> (es < t \<and> t < ee))"
    unfolding iff overlap_loop_iff by auto
  have empty: "read_flights_df fs tail = [] \<longrightarrow> snd (add_flight_record fs d tail a a n) = ?ok"
    unfolding iff by simp
  have two: "snd (add_flight_record ?fs1 d tail a a n) = ?ok
              \<and> read_flights_df (fst (add_flight_record ?fs1 d tail a a n)) tail
                = read_flights_df fs tail @ [new_row fs d tail a a n 0, new_row ?fs1 d tail a a n 0]"
    if ok: "snd (add_flight_record fs d tail a a n) = ?ok"
  proof -
    from ok have no: "\<not> overlap_loop t t (read_flights_df fs tail)" unfolding iff .
    from add_flight_record_accepts [OF tl i no, of n]
    have r1: "read_flights_df ?fs1 tail = read_flights_df fs tail @ [new_row fs d tail a a n 0]"
      by (simp add: read_write_folder aircraft_folder_def strip_upper)
    have no2: "\<not> overlap_loop t t (read_flights_df ?fs1 tail)"
      using no unfolding r1 overlap_loop_iff by (auto simp: existing_interval_new_row i)
    from add_flight_record_accepts [OF tl i no2, of n]
    show ?thesis
      by (simp add: read_write_folder aircraft_folder_def strip_upper r1)
  qed
  from c one empty two
  show "calc_duration_hours d a a = Inr 0
     \<and> (snd (add_flight_record fs d tail a a n) = ?ok
          \<longleftrightarrow> (\<forall>r \<in> set (read_flights_df fs tail). \<forall>es ee.
                 existing_interval r = Inr (es, ee) \<longrightarrow> \<not> (es < t \<and> t < ee)))
     \<and> (read_flights_df fs tail = [] \<longrightarrow> snd (add_flight_record fs d tail a a n) = ?ok)
     \<and> (snd (add_flight_record fs d tail a a n) = ?ok
          \<longrightarrow> snd (add_flight_record ?fs1 d tail a a n) = ?ok
              \<and> read_flights_df (fst (add_flight_record ?fs1 d tail a a n)) tail
                = read_flights_df fs tail
                  @ [new_row fs d tail a a n 0, new_row ?fs1 d tail a a n 0])"
    by blast
qed

theorem zero_length_flight_repeats_witness:
  "parse_datetime ''2024-01-01'' ''11:00'' = Inr 1063996500
   \<and> calc_duration_hours ''2024-01-01'' ''11:00'' ''11:00'' = Inr 0
   \<and> snd (add_flight_record (\<lambda>folder. Missing) ''2024-01-01'' ''N123AB'' ''11:00'' ''11:00'' 1)
       = Returned True (Text ''Flight added successfully.'')
   \<and> snd (add_flight_record
            (fst (add_flight_record (\<lambda>folder. Missing) ''2024-01-01'' ''N123AB'' ''11:00'' ''11:00'' 1))
            ''2024-01-01'' ''N123AB'' ''11:00'' ''11:00'' 1)
       = Returned True (Text ''Flight added successfully.'')"
proof -
  have k1: "parse_datetime ''2024-01-01'' ''11:00'' = Inr 1063996500" by code_simp
  have k2: "strip ''N123AB'' \<noteq> []" by code_simp
  have k3: "read_flights_df (\<lambda>folder. Missing) ''N123AB'' = []" by code_simp
  note w = zero_length_flight_repeats [where d = "''2024-01-01''" and a = "''11:00''"
      and t = 1063996500 and tail = "''N123AB''" and fs = "\<lambda>folder. Missing" and n = 1]
  from w k1 k2 have c: "calc_duration_hours ''2024-01-01'' ''11:00'' ''11:00'' = Inr 0"
    by blast
  from w k1 k2 k3
  have a: "snd (add_flight_record (\<lambda>folder. Missing) ''2024-01-01'' ''N123AB'' ''11:00'' ''11:00'' 1)
       = Returned True (Text ''Flight added successfully.'')"
    by blast
  from w k1 k2 a
  have b: "snd (add_flight_record
            (fst (add_flight_record (\<lambda>folder. Missing) ''2024-01-01'' ''N123AB'' ''11:00'' ''11:00'' 1))
            ''2024-01-01'' ''N123AB'' ''11:00'' ''11:00'' 1)
       = Returned True (Text ''Flight added successfully.'')"
    by blast
  from k1 c a b show ?thesis by blast
qed

text \<open>
  Claim C9 as stated says that such a request always succeeds. It does not when the
  instant lies inside a flight on file: with the flight from 10:00 to 12:00 logged, the
  request from 11:00 to 11:00 has duration 0 and is rejected as an overlap.
\<close>

theorem zero_length_flight_inside_is_rejected:
  "calc_duration_hours ''2024-01-01'' ''11:00'' ''11:00'' = Inr 0
   \<and> add_flight_record example_logs ''2024-01-01'' ''N123AB'' ''11:00'' ''11:00'' 1
       = (example_logs, Returned False (Text ''Overlap detected with existing flight.''))"
proof -
  have k1: "strip ''N123AB'' \<noteq> []" by code_simp
  have k2: "request_interval ''2024-01-01'' ''11:00'' ''11:00'' = Inr (1063996500, 1063996500)"
    by code_simp
  have k3: "overlap_loop 1063996500 1063996500 (read_flights_df example_logs ''N123AB'')"
    by code_simp
  have k4: "calc_duration_hours ''2024-01-01'' ''11:00'' ''11:00'' = Inr 0" by code_simp
  from add_flight_record_rejects [OF k1 k2 k3, of 1] k4 show ?thesis by simp
qed


section \<open>Flights across midnight\<close>

text \<open>
  Claim C10. The overlap test compares full instants, not date strings. A row on file
  whose landing time is earlier than its takeoff time, both read on the row's date, has
  an interval that ends on the next calendar day; a request dated that next day whose
  interval reaches into the part after midnight (it starts before the row's end and ends
  after midnight) is detected as overlapping and rejected. In the same way a request
  that lands after midnight is rejected when the part after midnight reaches into a row
  dated the next day.
\<close>

theorem overnight_overlap_is_detected:
  "(r \<in> set (read_flights_df fs tail) \<and> strip tail \<noteq> []
      \<and> existing_interval r = Inr (es, ee)
      \<and> parse_cells (Date r) (Landing_Time r) = Inr e0 \<and> e0 < es
      \<and> toordinal e0 = toordinal es
      \<and> request_interval d a b = Inr (ns, ne)
      \<and> toordinal ns = toordinal es + 1
      \<and> ns < ee \<and> (toordinal es + 1) * 1440 < ne
    \<longrightarrow> ee = e0 + 1440 \<and> toordinal ee = toordinal es + 1
        \<and> detect_overlap fs tail d a b = Inr True
        \<and> add_flight_record fs d tail a b n
            = (fs, Returned False (Text ''Overlap detected with existing flight.'')))
   \<and> (r \<in> set (read_flights_df fs tail) \<and> strip tail \<noteq> []
      \<and> existing_interval r = Inr (es, ee)
      \<and> request_interval d a b = Inr (ns, ne)
      \<and> parse_datetime d b = Inr n0 \<and> n0 < ns
      \<and> toordinal n0 = toordinal ns
      \<and> toordinal es = toordinal ns + 1
      \<and> es < ne \<and> (toordinal ns + 1) * 1440 < ee
    \<longrightarrow> ne = n0 + 1440 \<and> toordinal ne = toordinal ns + 1
        \<and> detect_overlap fs tail d a b = Inr True
        \<and> add_flight_record fs d tail a b n
            = (fs, Returned False (Text ''Overlap detected with existing flight.'')))"
proof (intro conjI impI)
  assume h: "r \<in> set (read_flights_df fs tail) \<and> strip tail \<noteq> []
      \<and> existing_interval r = Inr (es, ee)
      \<and> parse_cells (Date r) (Landing_Time r) = Inr e0 \<and> e0 < es
      \<and> toordinal e0 = toordinal es
      \<and> request_interval d a b = Inr (ns, ne)
      \<and> toordinal ns = toordinal es + 1
      \<and> ns < ee \<and> (toordinal es + 1) * 1440 < ne"
  then show ee: "ee = e0 + 1440" using existing_interval_rolled by blast
  with h show "toordinal ee = toordinal es + 1" by (simp add: toordinal_next)
  have "es < (toordinal es + 1) * 1440" using toordinal_bounds [of es] by simp
  with h have o: "ns < ee" "es < ne" by auto
  from h have i: "request_interval d a b = Inr (ns, ne)"
    and r: "r \<in> set (read_flights_df fs tail)" and e: "existing_interval r = Inr (es, ee)"
    and t: "strip tail \<noteq> []" by auto
  show "detect_overlap fs tail d a b = Inr True"
    by (rule detect_overlap_when(1) [OF i r e o])
  show "add_flight_record fs d tail a b n
            = (fs, Returned False (Text ''Overlap detected with existing flight.''))"
    by (rule add_flight_record_rejects [OF t i detect_overlap_when(2) [OF i r e o]])
next
  assume h: "r \<in> set (read_flights_df fs tail) \<and> strip tail \<noteq> []
      \<and> existing_interval r = Inr (es, ee)
      \<and> request_interval d a b = Inr (ns, ne)
      \<and> parse_datetime d b = Inr n0 \<and> n0 < ns
      \<and> toordinal n0 = toordinal ns
      \<and> toordinal es = toordinal ns + 1
      \<and> es < ne \<and> (toordinal ns + 1) * 1440 < ee"
  then show ne: "ne = n0 + 1440" using request_interval_rolled by blast
  with h show "toordinal ne = toordinal ns + 1" by (simp add: toordinal_next)
  have "ns < (toordinal ns + 1) * 1440" using toordinal_bounds [of ns] by simp
  with h have o: "ns < ee" "es < ne" by auto
  from h have i: "request_interval d a b = Inr (ns, ne)"
    and r: "r \<in> set (read_flights_df fs tail)" and e: "existing_interval r = Inr (es, ee)"
    and t: "strip tail \<noteq> []" by auto
  show "detect_overlap fs tail d a b = Inr True"
    by (rule detect_overlap_when(1) [OF i r e o])
  show "add_flight_record fs d tail a b n
            = (fs, Returned False (Text ''Overlap detected with existing flight.''))"
    by (rule add_flight_record_rejects [OF t i detect_overlap_when(2) [OF i r e o]])
qed


theorem overnight_overlap_is_detected_witness:
  "existing_interval flight_overnight = Inr (1063997220, 1063997340)
   \<and> toordinal 1063997340 = toordinal 1063997220 + 1
   \<and> add_flight_record overnight_logs ''2024-01-02'' ''N123AB'' ''00:30'' ''02:00'' 1
       = (overnight_logs, Returned False (Text ''Overlap detected with existing flight.''))
   \<and> request_interval ''2024-01-01'' ''23:00'' ''01:00'' = Inr (1063997220, 1063997340)
   \<and> add_flight_record next_day_logs ''2024-01-01'' ''N123AB'' ''23:00'' ''01:00'' 1
       = (next_day_logs, Returned False (Text ''Overlap detected with existing flight.''))"
proof -
  have k1: "read_flights_df overnight_logs ''N123AB'' = [flight_overnight]" by code_simp
  have k2: "read_flights_df next_day_logs ''N123AB'' = [flight_next_day]" by code_simp
  have k3: "strip ''N123AB'' \<noteq> []" by code_simp
  have k4: "existing_interval flight_overnight = Inr (1063997220, 1063997340)" by code_simp
  have k5: "parse_cells (Date flight_overnight) (Landing_Time flight_overnight) = Inr 1063995900"
    by code_simp
  have k6: "request_interval ''2024-01-02'' ''00:30'' ''02:00'' = Inr (1063997310, 1063997400)"
    by code_simp
  have k7: "existing_interval flight_next_day = Inr (1063997310, 1063997400)" by code_simp
  have k8: "request_interval ''2024-01-01'' ''23:00'' ''01:00'' = Inr (1063997220, 1063997340)"
    by code_simp
  have k9: "parse_datetime ''2024-01-01'' ''01:00'' = Inr 1063995900" by code_simp
  have o: "toordinal 1063995900 = 738886" "toordinal 1063997220 = 738886"
    "toordinal 1063997310 = 738887" "toordinal 1063997340 = 738887"
    by (simp_all add: toordinal_def)
  note w1 = overnight_overlap_is_detected [where r = flight_overnight and fs = overnight_logs
      and tail = "''N123AB''" and es = 1063997220 and ee = 1063997340 and ?e0.0 = 1063995900
      and d = "''2024-01-02''" and a = "''00:30''" and b = "''02:00''"
      and ns = 1063997310 and ne = 1063997400 and n = 1, THEN conjunct1]
  note w2 = overnight_overlap_is_detected [where r = flight_next_day and fs = next_day_logs
      and tail = "''N123AB''" and es = 1063997310 and ee = 1063997400 and ?n0.0 = 1063995900
      and d = "''2024-01-01''" and a = "''23:00''" and b = "''01:00''"
      and ns = 1063997220 and ne = 1063997340 and n = 1, THEN conjunct2]
  show ?thesis using w1 w2 by (simp add: k1 k2 k3 k4 k5 k6 k7 k8 k9 o)
qed

end
